theory Spec2Isabelle
  imports Main "HOL-Library.Sublist"
begin

section \<open>Strings, token ids and ragged tensors\<close>

text \<open>
  A string is a byte string, as \<^verbatim>\<open>tf.string\<close> holds it and as a file stores it: text is
  UTF-8 encoded, so a character above U+007F is several bytes. Token ids are vocabulary
  positions, so they are natural numbers. A ragged tensor of rank 2 is a list of rows; the
  tokenizer's raw output of rank 3 (text, word, word-piece) is a list of lists of rows.
\<close>

type_synonym token_id = nat

type_synonym 'a ragged = "'a list list"

section \<open>The vocabulary file\<close>

text \<open>
  \<^verbatim>\<open>write_vocab_file\<close> prints one token per line: \<^verbatim>\<open>print(token, file=f)\<close>
  writes the token followed by a line feed.
\<close>

definition write_vocab_file :: "string list \<Rightarrow> string" where
  "write_vocab_file vocab = concat (map (\<lambda>token. token @ [CHR 0x0A]) vocab)"

text \<open>
  What building a tokenizer can raise: the library's refusal of a vocabulary file, and the
  decoding error of \<^verbatim>\<open>read_text\<close>.
\<close>

datatype error = CorruptVocabularyError | UnicodeDecodeError

text \<open>
  Well-formed UTF-8, as Python's decoder accepts it: one byte below 0x80; a lead byte 0xC2
  to 0xDF with one continuation byte; 0xE0 to 0xEF with two; 0xF0 to 0xF4 with three; the
  second byte is narrowed after 0xE0, 0xED, 0xF0 and 0xF4, which excludes overlong forms,
  surrogates and code points above U+10FFFF.
\<close>

definition continuation_byte :: "nat \<Rightarrow> bool" where
  "continuation_byte b \<longleftrightarrow> 128 \<le> b \<and> b \<le> 191"

definition second_of_three :: "nat \<Rightarrow> nat \<Rightarrow> bool" where
  "second_of_three a b \<longleftrightarrow>
     (if a = 224 then 160 \<le> b \<and> b \<le> 191
      else if a = 237 then 128 \<le> b \<and> b \<le> 159
      else continuation_byte b)"

definition second_of_four :: "nat \<Rightarrow> nat \<Rightarrow> bool" where
  "second_of_four a b \<longleftrightarrow>
     (if a = 240 then 144 \<le> b \<and> b \<le> 191
      else if a = 244 then 128 \<le> b \<and> b \<le> 143
      else continuation_byte b)"

fun utf8_wellformed :: "nat list \<Rightarrow> bool" where
  "utf8_wellformed [] = True"
| "utf8_wellformed (a # rest) =
     (if a < 128 then utf8_wellformed rest
      else if 194 \<le> a \<and> a \<le> 223 then
        (case rest of
           b # r \<Rightarrow> continuation_byte b \<and> utf8_wellformed r
         | _ \<Rightarrow> False)
      else if 224 \<le> a \<and> a \<le> 239 then
        (case rest of
           b # c # r \<Rightarrow> second_of_three a b \<and> continuation_byte c \<and> utf8_wellformed r
         | _ \<Rightarrow> False)
      else if 240 \<le> a \<and> a \<le> 244 then
        (case rest of
           b # c # d # r \<Rightarrow>
             second_of_four a b \<and> continuation_byte c \<and> continuation_byte d \<and> utf8_wellformed r
         | _ \<Rightarrow> False)
      else False)"

text \<open>
  Reading in text mode turns a carriage return, with the line feed after it if there is
  one, into a line feed.
\<close>

fun universal_newlines :: "string \<Rightarrow> string" where
  "universal_newlines [] = []"
| "universal_newlines [c] = [if c = CHR 0x0D then CHR 0x0A else c]"
| "universal_newlines (c # d # cs) =
     (if c = CHR 0x0D \<and> d = CHR 0x0A then CHR 0x0A # universal_newlines cs
      else if c = CHR 0x0D then CHR 0x0A # universal_newlines (d # cs)
      else c # universal_newlines (d # cs))"

text \<open>
  \<^verbatim>\<open>pathlib.Path(vocab_path).read_text()\<close>, as a function of the file's bytes: the text of
  the file, in UTF-8 again, or the decoding error when the bytes are not well-formed UTF-8.
\<close>

definition read_text :: "string \<Rightarrow> error + string" where
  "read_text file =
     (if utf8_wellformed (map of_char file) then Inr (universal_newlines file)
      else Inl UnicodeDecodeError)"

text \<open>
  The line boundaries of Python's \<^verbatim>\<open>str.splitlines\<close> that are one byte in UTF-8: line
  feed, carriage return, vertical tab, form feed and the three separators 0x1C to 0x1E.
\<close>

definition is_linebreak :: "char \<Rightarrow> bool" where
  "is_linebreak c \<longleftrightarrow>
     c \<in> set [CHR 0x0A, CHR 0x0D, CHR 0x0B, CHR 0x0C, CHR 0x1C, CHR 0x1D, CHR 0x1E]"

text \<open>
  The number of bytes of the line boundary that a text starts with, 0 when it starts with
  none: a carriage return followed by a line feed is one boundary; the other boundaries of
  \<^verbatim>\<open>str.splitlines\<close> are next line U+0085 (bytes C2 85), line separator U+2028 (E2 80 A8)
  and paragraph separator U+2029 (E2 80 A9).
\<close>

definition boundary_length :: "string \<Rightarrow> nat" where
  "boundary_length s =
     (if take 2 s = [CHR 0x0D, CHR 0x0A] then 2
      else if s \<noteq> [] \<and> is_linebreak (hd s) then 1
      else if take 2 s = [CHR 0xC2, CHR 0x85] then 2
      else if take 3 s = [CHR 0xE2, CHR 0x80, CHR 0xA8] \<or> take 3 s = [CHR 0xE2, CHR 0x80, CHR 0xA9]
        then 3
      else 0)"

text \<open>
  \<^verbatim>\<open>splitlines\<close>: the lines without their boundaries; a last line without a boundary
  is kept when it is not empty, and the empty text has no line.
\<close>

function splitlines_from :: "string \<Rightarrow> string \<Rightarrow> string list" where
  "splitlines_from cur [] = (if cur = [] then [] else [cur])"
| "splitlines_from cur (c # cs) =
     (if boundary_length (c # cs) = 0 then splitlines_from (cur @ [c]) cs
      else cur # splitlines_from [] (drop (boundary_length (c # cs) - 1) cs))"
  by pat_completeness auto
termination
  by (relation "measure (\<lambda>(cur, rest). length rest)") auto

definition splitlines :: "string \<Rightarrow> string list" where
  "splitlines s = splitlines_from [] s"

text \<open>
  The vocabulary read in \<^verbatim>\<open>CustomTokenizer.__init__\<close>:
  \<^verbatim>\<open>pathlib.Path(vocab_path).read_text().splitlines()\<close>, as a function of the file's
  bytes.
\<close>

definition load_vocab :: "string \<Rightarrow> error + string list" where
  "load_vocab vocab_file =
     (case read_text vocab_file of Inl e \<Rightarrow> Inl e | Inr s \<Rightarrow> Inr (splitlines s))"

section \<open>Start and end sentinels\<close>

text \<open>
  \<^verbatim>\<open>tf.argmax\<close> of a vector of booleans: the smallest position that holds the largest
  value, so the position of the first \<open>True\<close>, and 0 when every entry is \<open>False\<close>. An empty
  vector has no position at all: the reduction has no result there.
\<close>

fun first_index :: "('a \<Rightarrow> bool) \<Rightarrow> 'a list \<Rightarrow> nat" where
  "first_index P [] = 0"
| "first_index P (x # xs) = (if P x then 0 else Suc (first_index P xs))"

definition argmax :: "bool list \<Rightarrow> nat option" where
  "argmax bs =
     (if bs = [] then None
      else if True \<in> set bs then Some (first_index (\<lambda>b. b) bs)
      else Some 0)"

text \<open>
  \<^verbatim>\<open>START = tf.argmax(tf.constant(config.RESERVED_TOKENS) == "[START]")\<close> and the same
  for \<^verbatim>\<open>END\<close>. The list of reserved tokens comes from the configuration module, so it
  is a parameter here.
\<close>

definition START :: "string list \<Rightarrow> token_id option" where
  "START reserved = argmax (map (\<lambda>tok. tok = ''[START]'') reserved)"

definition END :: "string list \<Rightarrow> token_id option" where
  "END reserved = argmax (map (\<lambda>tok. tok = ''[END]'') reserved)"

text \<open>\<^verbatim>\<open>tf.fill([count, 1], v)\<close>: \<open>count\<close> rows of the single value \<open>v\<close>.\<close>

definition fill :: "nat \<Rightarrow> 'a \<Rightarrow> 'a ragged" where
  "fill count v = replicate count [v]"

text \<open>
  \<^verbatim>\<open>tf.concat(values, axis=1)\<close>: the rows of the tensors are joined row by row; the
  tensors must have the same number of rows, and there must be at least one tensor.
\<close>

fun concat_axis1 :: "'a ragged list \<Rightarrow> 'a ragged option" where
  "concat_axis1 [] = None"
| "concat_axis1 [t] = Some t"
| "concat_axis1 (t # ts) =
     (case concat_axis1 ts of
        None \<Rightarrow> None
      | Some r \<Rightarrow> if length t = length r then Some (map (\<lambda>(a, b). a @ b) (zip t r)) else None)"

definition add_start_end :: "string list \<Rightarrow> token_id ragged \<Rightarrow> token_id ragged option" where
  "add_start_end reserved ragged =
     (case START reserved of
        None \<Rightarrow> None
      | Some s \<Rightarrow>
          (case END reserved of
             None \<Rightarrow> None
           | Some e \<Rightarrow>
               (let count = length ragged;
                    starts = fill count s;
                    ends = fill count e
                in concat_axis1 [starts, ragged, ends])))"

section \<open>Cleanup of detokenized text\<close>

text \<open>
  \<^verbatim>\<open>bad_tokens\<close>: the reserved tokens other than \<^verbatim>\<open>[UNK]\<close>. \<^verbatim>\<open>re.escape\<close> makes each
  of them a literal of the regular expression, so the list of literals stands for the
  escaped list.
\<close>

definition bad_tokens :: "string list \<Rightarrow> string list" where
  "bad_tokens reserved_tokens = filter (\<lambda>tok. tok \<noteq> ''[UNK]'') reserved_tokens"

text \<open>
  \<^verbatim>\<open>tf.strings.regex_full_match(cell, "|".join(literals))\<close>: the whole cell is one of the
  literals. Joining no literal gives the empty expression, which matches the empty cell
  only.
\<close>

definition regex_full_match :: "string list \<Rightarrow> string \<Rightarrow> bool" where
  "regex_full_match literals cell \<longleftrightarrow> (if literals = [] then cell = [] else cell \<in> set literals)"

text \<open>
  \<^verbatim>\<open>tf.strings.reduce_join(row, separator=" ")\<close> on a ragged row: the cells are appended
  from left to right, each after one space unless the text joined so far is empty; the
  empty row gives the empty string.
\<close>

definition reduce_join :: "string list \<Rightarrow> string" where
  "reduce_join row =
     foldl (\<lambda>joined cell. (if joined = [] then joined else joined @ '' '') @ cell) [] row"

definition boolean_mask :: "'a list \<Rightarrow> bool list \<Rightarrow> 'a list" where
  "boolean_mask row keep = map fst (filter snd (zip row keep))"

definition cleanup_text :: "string list \<Rightarrow> string ragged \<Rightarrow> string list" where
  "cleanup_text reserved_tokens token_txt =
     map (\<lambda>row.
            let bad_cells = map (regex_full_match (bad_tokens reserved_tokens)) row;
                result = boolean_mask row (map Not bad_cells)
            in reduce_join result)
         token_txt"

section \<open>The custom tokenizer\<close>

text \<open>
  \<^verbatim>\<open>self.tokenizer\<close> is an object of the text library: it turns a batch of texts into
  ids of rank 3 (text, word, word-piece) and a batch of id rows back into rows of words.
  Detokenization has no result in the model when the library gives none. The fields of
  \<^verbatim>\<open>self\<close> are \<^verbatim>\<open>tokenizer\<close>, \<^verbatim>\<open>_reserved_tokens\<close> and \<^verbatim>\<open>vocab\<close>.
\<close>

record BertTokenizer =
  bt_tokenize :: "string list \<Rightarrow> token_id ragged list"
  bt_detokenize :: "token_id ragged \<Rightarrow> string ragged option"

record CustomTokenizer =
  self_tokenizer :: BertTokenizer
  self_reserved_tokens :: "string list"
  self_vocab :: "string list"

text \<open>\<^verbatim>\<open>enc.merge_dims(-2, -1)\<close>: the word and word-piece axes become one.\<close>

definition merge_dims :: "'a ragged list \<Rightarrow> 'a ragged" where
  "merge_dims enc = map concat enc"

text \<open>
  The tokens of a batch before framing: case folding, the library's tokenizer, and the
  merge of the two inner axes. The case folding is the library's \<^verbatim>\<open>case_fold_utf8\<close>,
  a parameter here.
\<close>

definition core_tokens :: "(string \<Rightarrow> string) \<Rightarrow> CustomTokenizer \<Rightarrow> string list \<Rightarrow> token_id ragged" where
  "core_tokens case_fold_utf8 self strings =
     (let strings = map case_fold_utf8 strings;
          enc = bt_tokenize (self_tokenizer self) strings
      in merge_dims enc)"

definition tokenize :: "(string \<Rightarrow> string) \<Rightarrow> CustomTokenizer \<Rightarrow> string list \<Rightarrow> token_id ragged option" where
  "tokenize case_fold_utf8 self strings =
     (let enc = core_tokens case_fold_utf8 self strings
      in add_start_end (self_reserved_tokens self) enc)"

definition detokenize :: "CustomTokenizer \<Rightarrow> token_id ragged \<Rightarrow> string list option" where
  "detokenize self tokenized =
     (case bt_detokenize (self_tokenizer self) tokenized of
        None \<Rightarrow> None
      | Some words \<Rightarrow> Some (cleanup_text (self_reserved_tokens self) words))"

definition get_vocab_size :: "CustomTokenizer \<Rightarrow> nat" where
  "get_vocab_size self = length (self_vocab self)"

definition get_reserved_tokens :: "CustomTokenizer \<Rightarrow> string list" where
  "get_reserved_tokens self = self_reserved_tokens self"

section \<open>The word-piece tokenizer of the text library\<close>

text \<open>
  The notebook builds \<^verbatim>\<open>self.tokenizer\<close> with \<^verbatim>\<open>text.BertTokenizer\<close>, whose code is not
  part of the notebook. The definitions of this section give it the behaviour that the
  specification describes for the Tokenizer component (section 4.3).
\<close>

text \<open>
  Modelled from the spec: the whitespace of the word splitting of \<^verbatim>\<open>text.BertTokenizer\<close>
  (absent from the notebook), "split normalized text on whitespace": space, tab, line feed
  and carriage return.
\<close>

definition is_space :: "char \<Rightarrow> bool" where
  "is_space c \<longleftrightarrow> c \<in> set [CHR 0x20, CHR 0x09, CHR 0x0A, CHR 0x0D]"

text \<open>
  Modelled from the spec: the "fixed set of punctuation boundaries" of the word splitting of
  \<^verbatim>\<open>text.BertTokenizer\<close> (absent from the notebook): the ASCII punctuation, character codes
  33 to 47, 58 to 64, 91 to 96 and 123 to 126.
\<close>

definition is_punct :: "char \<Rightarrow> bool" where
  "is_punct c \<longleftrightarrow>
     (let n = (of_char c :: nat)
      in (33 \<le> n \<and> n \<le> 47) \<or> (58 \<le> n \<and> n \<le> 64) \<or> (91 \<le> n \<and> n \<le> 96) \<or> (123 \<le> n \<and> n \<le> 126))"

text \<open>
  Modelled from the spec: the word splitting of \<^verbatim>\<open>text.BertTokenizer\<close> (absent from the
  notebook); at a boundary, the characters collected so far are a word if there are any.
\<close>

definition flush :: "string \<Rightarrow> string list" where
  "flush cur = (if cur = [] then [] else [cur])"

text \<open>
  Modelled from the spec: the word splitting of \<^verbatim>\<open>text.BertTokenizer\<close> (absent from the
  notebook), "split normalized text on whitespace and a fixed set of punctuation boundaries
  (punctuation characters are emitted as their own single-character words)". \<open>cur\<close> holds
  the characters of the word being read.
\<close>

fun split_from :: "string \<Rightarrow> string \<Rightarrow> string list" where
  "split_from cur [] = flush cur"
| "split_from cur (c # cs) =
     (if is_space c then flush cur @ split_from [] cs
      else if is_punct c then flush cur @ [c] # split_from [] cs
      else split_from (cur @ [c]) cs)"

text \<open>
  Modelled from the spec: the word splitting of \<^verbatim>\<open>text.BertTokenizer\<close> (absent from the
  notebook), from the start of the text.
\<close>

definition split_words :: "string \<Rightarrow> string list" where
  "split_words s = split_from [] s"

text \<open>
  Modelled from the spec: the vocabulary as "an ordered sequence of unique pieces, index =
  token id" (the lookup table of \<^verbatim>\<open>text.BertTokenizer\<close> is absent from the notebook). The
  id of a piece is its first position in the list.
\<close>

definition piece_id :: "string list \<Rightarrow> string \<Rightarrow> token_id" where
  "piece_id vocab piece = first_index (\<lambda>p. p = piece) vocab"

text \<open>
  Modelled from the spec: the continuation marker of \<^verbatim>\<open>text.BertTokenizer\<close> (absent from
  the notebook), "every non-initial piece is marked with a continuation prefix"; the prefix
  is \<^verbatim>\<open>##\<close>, as in the vocabularies the notebook prints.
\<close>

definition marked :: "bool \<Rightarrow> string \<Rightarrow> string" where
  "marked at_start s = (if at_start then s else ''##'' @ s)"

text \<open>
  Modelled from the spec: a piece of \<^verbatim>\<open>text.BertTokenizer\<close> (absent from the notebook) with
  the continuation marker, "is continuation of previous piece within the same word".
\<close>

definition is_continuation :: "string \<Rightarrow> bool" where
  "is_continuation piece \<longleftrightarrow> take 2 piece = ''##''"

text \<open>
  Modelled from the spec: one match of the greedy decomposition of \<^verbatim>\<open>text.BertTokenizer\<close>
  (absent from the notebook), "find the longest vocabulary piece (continuation-marked if not
  at the word start) that matches a prefix of the remaining word text", down to "the
  single-character fallback". \<open>longest_match vocab at_start rest n\<close> tries the prefixes of
  \<open>rest\<close> of length \<open>n\<close> down to 1 and returns the id of the first that is a piece, with its
  length.
\<close>

fun longest_match :: "string list \<Rightarrow> bool \<Rightarrow> string \<Rightarrow> nat \<Rightarrow> (token_id \<times> nat) option" where
  "longest_match vocab at_start rest 0 = None"
| "longest_match vocab at_start rest (Suc n) =
     (let piece = marked at_start (take (Suc n) rest)
      in if piece \<in> set vocab then Some (piece_id vocab piece, Suc n)
         else longest_match vocab at_start rest n)"

text \<open>
  Modelled from the spec: the greedy decomposition of one word by \<^verbatim>\<open>text.BertTokenizer\<close>
  (absent from the notebook), "emit its id; advance the offset past the match; repeat until
  the word is consumed. If at any position no piece matches [...] decomposition for that
  word stops". \<open>emitted\<close> holds the ids emitted so far; there is no result when no piece
  matches.
\<close>

function decompose :: "string list \<Rightarrow> bool \<Rightarrow> string \<Rightarrow> token_id list \<Rightarrow> token_id list option" where
  "decompose vocab at_start rest emitted =
     (if rest = [] then Some emitted
      else (case longest_match vocab at_start rest (length rest) of
              None \<Rightarrow> None
            | Some (i, n) \<Rightarrow> decompose vocab False (drop n rest) (emitted @ [i])))"
  by pat_completeness auto
termination
proof (relation "measure (\<lambda>(vocab, at_start, rest, emitted). length rest)")
  show "wf (measure (\<lambda>(vocab, at_start, rest, emitted). length rest))"
    by simp
next
  fix vocab :: "string list" and at_start :: bool and rest :: string
    and emitted :: "token_id list" and x2 :: "token_id \<times> nat" and i n :: nat
  assume nonempty: "rest \<noteq> []"
    and found: "longest_match vocab at_start rest (length rest) = Some x2"
    and pair: "(i, n) = x2"
  have pos: "longest_match vocab at_start rest k = Some (i, n) \<Longrightarrow> 0 < n" for k
    by (induction k) (auto simp: Let_def split: if_splits)
  from found pair have "0 < n"
    using pos by metis
  with nonempty
  show "((vocab, False, drop n rest, emitted @ [i]), (vocab, at_start, rest, emitted))
          \<in> measure (\<lambda>(vocab, at_start, rest, emitted). length rest)"
    by simp
qed

text \<open>
  Modelled from the spec: the "single configured unknown token id" of
  \<^verbatim>\<open>text.BertTokenizer\<close> (absent from the notebook): the id of the piece \<^verbatim>\<open>[UNK]\<close>, the
  token that \<^verbatim>\<open>cleanup_text\<close> keeps.
\<close>

definition unknown_id :: "string list \<Rightarrow> token_id" where
  "unknown_id vocab = piece_id vocab ''[UNK]''"

text \<open>
  Modelled from the spec: the ids of one word by \<^verbatim>\<open>text.BertTokenizer\<close> (absent from the
  notebook), "the entire word maps to a single configured unknown token id [...] partial
  matches before the failure point are discarded, not partially emitted".
\<close>

definition wordpiece :: "string list \<Rightarrow> string \<Rightarrow> token_id list" where
  "wordpiece vocab w =
     (case decompose vocab True w [] of None \<Rightarrow> [unknown_id vocab] | Some ids \<Rightarrow> ids)"

text \<open>
  Modelled from the spec: \<^verbatim>\<open>text.BertTokenizer.tokenize\<close> (absent from the notebook),
  "tokenize(text, vocab) -> sequence of TokenSequence (one per whitespace/punctuation-delimited
  word)", for each text of the batch.
\<close>

definition BertTokenizer_tokenize :: "string list \<Rightarrow> string list \<Rightarrow> token_id ragged list" where
  "BertTokenizer_tokenize vocab strings = map (\<lambda>s. map (wordpiece vocab) (split_words s)) strings"

text \<open>
  Modelled from the spec: one step of the greedy walk of \<^verbatim>\<open>text.BertTokenizer\<close> (absent
  from the notebook). The state is whether the walk is at the word start, and the text
  that remains; a state has no successor when no piece matches.
\<close>

definition greedy_step :: "string list \<Rightarrow> bool \<times> string \<Rightarrow> (bool \<times> string) option" where
  "greedy_step vocab s =
     (case longest_match vocab (fst s) (snd s) (length (snd s)) of
        None \<Rightarrow> None
      | Some (i, n) \<Rightarrow> Some (False, drop n (snd s)))"

text \<open>
  Modelled from the spec: the state of the greedy walk of \<^verbatim>\<open>text.BertTokenizer\<close> (absent
  from the notebook) after \<open>k\<close> matches.
\<close>

primrec greedy_steps :: "string list \<Rightarrow> nat \<Rightarrow> bool \<times> string \<Rightarrow> (bool \<times> string) option" where
  "greedy_steps vocab 0 s = Some s"
| "greedy_steps vocab (Suc k) s =
     (case greedy_step vocab s of None \<Rightarrow> None | Some s' \<Rightarrow> greedy_steps vocab k s')"

text \<open>
  Modelled from the spec: "at any position no piece matches (including the single-character
  fallback)", for the walk of \<^verbatim>\<open>text.BertTokenizer\<close> (absent from the notebook). The
  decomposition of \<open>w\<close> fails at its \<open>k\<close>-th position: after \<open>k\<close> matches some text remains
  and no piece matches a prefix of it.
\<close>

definition fails_at :: "string list \<Rightarrow> string \<Rightarrow> nat \<Rightarrow> bool" where
  "fails_at vocab w k =
     (case greedy_steps vocab k (True, w) of
        None \<Rightarrow> False
      | Some s \<Rightarrow> snd s \<noteq> [] \<and> longest_match vocab (fst s) (snd s) (length (snd s)) = None)"

text \<open>
  \<^verbatim>\<open>tf.gather(params, indices)\<close> for indices inside \<open>params\<close>. What the library does with
  an index outside is not part of the model: there is no result then.
\<close>

definition gather :: "'a list \<Rightarrow> nat list \<Rightarrow> 'a list option" where
  "gather params indices =
     (if list_all (\<lambda>i. i < length params) indices then Some (map (\<lambda>i. params ! i) indices)
      else None)"

text \<open>
  Modelled from the spec: the merge of pieces into words by
  \<^verbatim>\<open>text.BertTokenizer.detokenize\<close> (absent from the notebook), "concatenate pieces within a
  word by dropping the continuation marker and removing the inter-piece boundary". A piece
  with the marker continues the word \<open>cur\<close> before it; any other piece starts a word.
\<close>

fun join_pieces :: "string \<Rightarrow> string list \<Rightarrow> string list" where
  "join_pieces cur [] = [cur]"
| "join_pieces cur (p # ps) =
     (if is_continuation p then join_pieces (cur @ drop 2 p) ps
      else cur # join_pieces p ps)"

text \<open>
  Modelled from the spec: the words of a row of pieces, for
  \<^verbatim>\<open>text.BertTokenizer.detokenize\<close> (absent from the notebook). The first piece starts the
  first word.
\<close>

definition merge_pieces :: "string list \<Rightarrow> string list" where
  "merge_pieces pieces = (case pieces of [] \<Rightarrow> [] | p # ps \<Rightarrow> join_pieces p ps)"

text \<open>
  Modelled from the spec: \<^verbatim>\<open>text.BertTokenizer.detokenize\<close> (absent from the notebook), "map
  each id back to its piece via Vocabulary; concatenate pieces within a word". The words
  come back as a row of cells, as the notebook's output cells show; the join with single
  spaces is done by \<^verbatim>\<open>cleanup_text\<close>. There is no result for an id outside the vocabulary.
\<close>

definition BertTokenizer_detokenize :: "string list \<Rightarrow> token_id ragged \<Rightarrow> string ragged option" where
  "BertTokenizer_detokenize vocab tokenized =
     those (map (\<lambda>ids. map_option merge_pieces (gather vocab ids)) tokenized)"

text \<open>
  Modelled from the spec: the tokenizer object of \<^verbatim>\<open>text.BertTokenizer\<close> (absent from the
  notebook) over a vocabulary, "index = token id".
\<close>

definition BertTokenizer_over :: "string list \<Rightarrow> BertTokenizer" where
  "BertTokenizer_over vocab =
     \<lparr>bt_tokenize = BertTokenizer_tokenize vocab, bt_detokenize = BertTokenizer_detokenize vocab\<rparr>"

text \<open>
  Modelled from the spec: the lines of a vocabulary file as \<^verbatim>\<open>text.BertTokenizer\<close> (absent
  from the notebook) reads them, "one piece per line, in id order, newline-delimited": the
  file's bytes split at line feeds, a last line without a line feed kept when it is not
  empty.
\<close>

fun lines_from :: "string \<Rightarrow> string \<Rightarrow> string list" where
  "lines_from cur [] = (if cur = [] then [] else [cur])"
| "lines_from cur (c # cs) =
     (if c = CHR 0x0A then cur # lines_from [] cs else lines_from (cur @ [c]) cs)"

text \<open>
  Modelled from the spec: the lines of a vocabulary file for \<^verbatim>\<open>text.BertTokenizer\<close> (absent
  from the notebook), from the start of the file.
\<close>

definition vocab_lines :: "string \<Rightarrow> string list" where
  "vocab_lines vocab_file = lines_from [] vocab_file"

text \<open>
  Modelled from the spec: the load of the vocabulary by \<^verbatim>\<open>text.BertTokenizer\<close> (absent from
  the notebook), "load(path) -> Vocabulary: read lines in order, id = line index; fails with
  CorruptVocabularyError if the file is empty or contains duplicate lines".
\<close>

definition VocabularyStore_load :: "string \<Rightarrow> error + string list" where
  "VocabularyStore_load vocab_file =
     (let pieces = vocab_lines vocab_file
      in if vocab_file = [] \<or> \<not> distinct pieces then Inl CorruptVocabularyError else Inr pieces)"

text \<open>
  Modelled from the spec: the constructor \<^verbatim>\<open>text.BertTokenizer(vocab_path, ...)\<close> (absent
  from the notebook): the tokenizer over the vocabulary that the file loads as, or the
  error of the load.
\<close>

definition BertTokenizer_init :: "string \<Rightarrow> error + BertTokenizer" where
  "BertTokenizer_init vocab_file =
     (case VocabularyStore_load vocab_file of
        Inl e \<Rightarrow> Inl e
      | Inr pieces \<Rightarrow> Inr (BertTokenizer_over pieces))"

text \<open>
  \<^verbatim>\<open>CustomTokenizer.__init__\<close>, in the order of its statements: the library's tokenizer is
  built from the file at \<^verbatim>\<open>vocab_path\<close>, the reserved tokens are those of the
  configuration, and \<^verbatim>\<open>self.vocab\<close> is read from the same file with
  \<^verbatim>\<open>read_text().splitlines()\<close>. An error of either step ends the construction.
\<close>

definition CustomTokenizer_init :: "string list \<Rightarrow> string \<Rightarrow> error + CustomTokenizer" where
  "CustomTokenizer_init config_reserved vocab_file =
     (case BertTokenizer_init vocab_file of
        Inl e \<Rightarrow> Inl e
      | Inr library_tokenizer \<Rightarrow>
          (case load_vocab vocab_file of
             Inl e \<Rightarrow> Inl e
           | Inr vocab \<Rightarrow>
               Inr \<lparr>self_tokenizer = library_tokenizer,
                    self_reserved_tokens = config_reserved,
                    self_vocab = vocab\<rparr>))"

text \<open>\<^verbatim>\<open>lookup\<close>: \<^verbatim>\<open>tf.gather(self.vocab, token_ids)\<close>, row by row.\<close>

definition lookup :: "CustomTokenizer \<Rightarrow> token_id ragged \<Rightarrow> string ragged option" where
  "lookup self token_ids = those (map (gather (self_vocab self)) token_ids)"

section \<open>The configuration and a worked example\<close>

text \<open>
  Modelled from the spec: \<^verbatim>\<open>config.RESERVED_TOKENS\<close> (the configuration module is absent),
  "a small fixed, ordered list of sentinel strings (e.g. pad, unknown, start, end)"; these
  are the first four entries of both vocabularies that the notebook prints.
\<close>

definition RESERVED_TOKENS :: "string list" where
  "RESERVED_TOKENS = [''[PAD]'', ''[UNK]'', ''[START]'', ''[END]'']"

text \<open>The vocabulary of the concrete scenario of the specification, ids 0 to 8.\<close>

definition scenario_vocab :: "string list" where
  "scenario_vocab =
     [''[PAD]'', ''[UNK]'', ''[START]'', ''[END]'', ''he'', ''##llo'', ''wor'', ''##ld'', ''!'']"

text \<open>
  The tokenizer of the scenario. It is the one that \<^verbatim>\<open>CustomTokenizer.__init__\<close> builds
  from the file that \<^verbatim>\<open>write_vocab_file\<close> writes for the vocabulary (lemma
  \<open>scenario_tokenizer_built\<close> below).
\<close>

definition scenario_tokenizer :: CustomTokenizer where
  "scenario_tokenizer =
     \<lparr>self_tokenizer = BertTokenizer_over scenario_vocab,
      self_reserved_tokens = RESERVED_TOKENS,
      self_vocab = scenario_vocab\<rparr>"

text \<open>
  Case folding on the ASCII letters, for the worked examples: upper-case letters become
  lower-case, every other byte stays.
\<close>

definition case_fold_ascii :: "string \<Rightarrow> string" where
  "case_fold_ascii s =
     map (\<lambda>c. let n = (of_char c :: nat) in if 65 \<le> n \<and> n \<le> 90 then char_of (n + 32) else c) s"


section \<open>Framing\<close>

lemma argmax_nonempty: "bs \<noteq> [] \<Longrightarrow> \<exists>i. argmax bs = Some i"
  by (simp add: argmax_def)

lemma START_nonempty: "reserved \<noteq> [] \<Longrightarrow> \<exists>s. START reserved = Some s"
  by (simp add: START_def argmax_def)

lemma END_nonempty: "reserved \<noteq> [] \<Longrightarrow> \<exists>e. END reserved = Some e"
  by (simp add: END_def argmax_def)

lemma zip_replicate_rows:
  "map (\<lambda>(a, b). a @ b) (zip ragged (replicate (length ragged) [e])) = map (\<lambda>row. row @ [e]) ragged"
  by (induction ragged) auto

lemma zip_replicate_rows_left:
  "map (\<lambda>(a, b). a @ b) (zip (replicate (length ragged) [s]) ragged) = map (\<lambda>row. s # row) ragged"
  by (induction ragged) auto

lemma concat_axis1_fill:
  "concat_axis1 [fill (length ragged) s, ragged, fill (length ragged) e]
     = Some (map (\<lambda>row. s # row @ [e]) ragged)"
proof -
  have inner: "concat_axis1 [ragged, fill (length ragged) e] = Some (map (\<lambda>row. row @ [e]) ragged)"
    by (simp add: fill_def zip_replicate_rows)
  have "map (\<lambda>(a, b). a @ b) (zip (replicate (length ragged) [s]) (map (\<lambda>row. row @ [e]) ragged))
          = map (\<lambda>row. s # row @ [e]) ragged"
    using zip_replicate_rows_left [where s = s and ragged = "map (\<lambda>row. row @ [e]) ragged"]
    by (simp add: comp_def)
  then show ?thesis
    using inner by (simp add: fill_def)
qed

lemma add_start_end_rows:
  assumes "START reserved = Some s" and "END reserved = Some e"
  shows "add_start_end reserved ragged = Some (map (\<lambda>row. s # row @ [e]) ragged)"
  using assms concat_axis1_fill [of ragged s e] by (simp add: add_start_end_def Let_def)

text \<open>
  C2. For every batch of texts and every tokenizer object whose list of reserved tokens is
  not empty, \<open>tokenize\<close> returns one framed row for each row of core tokens; every framed
  row begins with the start id, ends with the end id, is two longer than its core row, and
  holds the core row unchanged in between.
\<close>

theorem tokenize_framing:
  assumes "self_reserved_tokens self \<noteq> []"
  shows "\<exists>s e framed.
           START (self_reserved_tokens self) = Some s \<and>
           END (self_reserved_tokens self) = Some e \<and>
           tokenize case_fold self strings = Some framed \<and>
           length framed = length (core_tokens case_fold self strings) \<and>
           (\<forall>i < length framed.
              hd (framed ! i) = s \<and>
              last (framed ! i) = e \<and>
              length (framed ! i) = length (core_tokens case_fold self strings ! i) + 2 \<and>
              butlast (tl (framed ! i)) = core_tokens case_fold self strings ! i)"
proof -
  let ?core = "core_tokens case_fold self strings"
  from assms obtain s where s: "START (self_reserved_tokens self) = Some s"
    using START_nonempty by blast
  from assms obtain e where e: "END (self_reserved_tokens self) = Some e"
    using END_nonempty by blast
  let ?framed = "map (\<lambda>row. s # row @ [e]) ?core"
  have tok: "tokenize case_fold self strings = Some ?framed"
    using add_start_end_rows [OF s e] by (simp add: tokenize_def)
  have rows: "\<forall>i < length ?framed.
                hd (?framed ! i) = s \<and> last (?framed ! i) = e \<and>
                length (?framed ! i) = length (?core ! i) + 2 \<and>
                butlast (tl (?framed ! i)) = ?core ! i"
    by simp
  have len: "length ?framed = length ?core"
    by simp
  from s e tok len rows show ?thesis
    by blast
qed

theorem tokenize_framing_witness:
  "self_reserved_tokens scenario_tokenizer \<noteq> [] \<and>
   (\<exists>s e framed.
      START (self_reserved_tokens scenario_tokenizer) = Some s \<and>
      END (self_reserved_tokens scenario_tokenizer) = Some e \<and>
      tokenize case_fold_ascii scenario_tokenizer [''Hello World!''] = Some framed \<and>
      length framed = length (core_tokens case_fold_ascii scenario_tokenizer [''Hello World!'']) \<and>
      (\<forall>i < length framed.
         hd (framed ! i) = s \<and>
         last (framed ! i) = e \<and>
         length (framed ! i)
           = length (core_tokens case_fold_ascii scenario_tokenizer [''Hello World!''] ! i) + 2 \<and>
         butlast (tl (framed ! i))
           = core_tokens case_fold_ascii scenario_tokenizer [''Hello World!''] ! i))"
proof -
  have h: "self_reserved_tokens scenario_tokenizer \<noteq> []"
    by (simp add: scenario_tokenizer_def RESERVED_TOKENS_def)
  show ?thesis
    using h tokenize_framing [where self = scenario_tokenizer
        and case_fold = case_fold_ascii and strings = "[''Hello World!'']"]
    by simp
qed

section \<open>Sentinel ids\<close>

lemma first_index_found:
  "\<exists>x \<in> set xs. P x \<Longrightarrow>
     first_index P xs < length xs \<and> P (xs ! first_index P xs) \<and>
     (\<forall>j < first_index P xs. \<not> P (xs ! j))"
proof (induction xs)
  case Nil
  then show ?case by simp
next
  case (Cons x xs)
  show ?case
  proof (cases "P x")
    case True
    then show ?thesis by simp
  next
    case False
    with Cons.prems have "\<exists>y \<in> set xs. P y" by auto
    from Cons.IH [OF this] False show ?thesis
      by (auto simp: nth_Cons split: nat.splits)
  qed
qed

lemma argmax_equality_scan:
  assumes "tok \<in> set reserved"
  shows "\<exists>i. argmax (map (\<lambda>t. t = tok) reserved) = Some i \<and> i < length reserved \<and>
              reserved ! i = tok \<and> (\<forall>j < i. reserved ! j \<noteq> tok)"
proof -
  have idx: "first_index (\<lambda>b. b) (map (\<lambda>t. t = tok) xs) = first_index (\<lambda>t. t = tok) xs" for xs
    by (induction xs) auto
  from assms have ex: "\<exists>x \<in> set reserved. x = tok" by simp
  from assms have "argmax (map (\<lambda>t. t = tok) reserved) = Some (first_index (\<lambda>t. t = tok) reserved)"
    by (auto simp: argmax_def idx)
  with first_index_found [OF ex] show ?thesis by simp
qed

lemma argmax_no_match:
  assumes "reserved \<noteq> []" and "tok \<notin> set reserved"
  shows "argmax (map (\<lambda>t. t = tok) reserved) = Some 0"
  using assms by (auto simp: argmax_def)

text \<open>
  C9. For a non-empty list of reserved tokens: when the list holds \<^verbatim>\<open>[START]\<close>, the start
  id is the position of its first occurrence, and likewise for \<^verbatim>\<open>[END]\<close>; when it does
  not, the scan gives 0, the position of the first reserved token, without failing, and
  framing puts 0 where the missing sentinel would stand.
\<close>

theorem sentinel_ids_by_equality_scan:
  assumes "reserved \<noteq> []"
  shows "(''[START]'' \<in> set reserved \<longrightarrow>
            (\<exists>i. START reserved = Some i \<and> i < length reserved \<and> reserved ! i = ''[START]'' \<and>
                 (\<forall>j < i. reserved ! j \<noteq> ''[START]''))) \<and>
         (''[END]'' \<in> set reserved \<longrightarrow>
            (\<exists>i. END reserved = Some i \<and> i < length reserved \<and> reserved ! i = ''[END]'' \<and>
                 (\<forall>j < i. reserved ! j \<noteq> ''[END]''))) \<and>
         (''[START]'' \<notin> set reserved \<longrightarrow>
            START reserved = Some 0 \<and>
            (\<exists>e. add_start_end reserved ragged = Some (map (\<lambda>row. 0 # row @ [e]) ragged))) \<and>
         (''[END]'' \<notin> set reserved \<longrightarrow>
            END reserved = Some 0 \<and>
            (\<exists>s. add_start_end reserved ragged = Some (map (\<lambda>row. s # row @ [0]) ragged)))"
proof -
  have a: "''[START]'' \<in> set reserved \<longrightarrow>
            (\<exists>i. START reserved = Some i \<and> i < length reserved \<and> reserved ! i = ''[START]'' \<and>
                 (\<forall>j < i. reserved ! j \<noteq> ''[START]''))"
    using argmax_equality_scan [of "''[START]''" reserved] by (simp add: START_def)
  have b: "''[END]'' \<in> set reserved \<longrightarrow>
            (\<exists>i. END reserved = Some i \<and> i < length reserved \<and> reserved ! i = ''[END]'' \<and>
                 (\<forall>j < i. reserved ! j \<noteq> ''[END]''))"
    using argmax_equality_scan [of "''[END]''" reserved] by (simp add: END_def)
  have c: "''[START]'' \<notin> set reserved \<longrightarrow>
            START reserved = Some 0 \<and>
            (\<exists>e. add_start_end reserved ragged = Some (map (\<lambda>row. 0 # row @ [e]) ragged))"
  proof
    assume "''[START]'' \<notin> set reserved"
    with assms have s: "START reserved = Some 0"
      using argmax_no_match [of reserved "''[START]''"] by (simp add: START_def)
    from assms obtain e where e: "END reserved = Some e"
      using END_nonempty by blast
    from s add_start_end_rows [OF s e]
    show "START reserved = Some 0 \<and>
            (\<exists>e. add_start_end reserved ragged = Some (map (\<lambda>row. 0 # row @ [e]) ragged))"
      by blast
  qed
  have d: "''[END]'' \<notin> set reserved \<longrightarrow>
            END reserved = Some 0 \<and>
            (\<exists>s. add_start_end reserved ragged = Some (map (\<lambda>row. s # row @ [0]) ragged))"
  proof
    assume "''[END]'' \<notin> set reserved"
    with assms have e: "END reserved = Some 0"
      using argmax_no_match [of reserved "''[END]''"] by (simp add: END_def)
    from assms obtain s where s: "START reserved = Some s"
      using START_nonempty by blast
    from e add_start_end_rows [OF s e]
    show "END reserved = Some 0 \<and>
            (\<exists>s. add_start_end reserved ragged = Some (map (\<lambda>row. s # row @ [0]) ragged))"
      by blast
  qed
  from a b c d show ?thesis by blast
qed

theorem sentinel_ids_by_equality_scan_witness:
  "[''[PAD]'', ''[UNK]''] \<noteq> [] \<and>
   ''[START]'' \<notin> set [''[PAD]'', ''[UNK]''] \<and>
   ''[END]'' \<notin> set [''[PAD]'', ''[UNK]''] \<and>
   START [''[PAD]'', ''[UNK]''] = Some 0 \<and>
   END [''[PAD]'', ''[UNK]''] = Some 0 \<and>
   add_start_end [''[PAD]'', ''[UNK]''] [[4, 5], []] = Some [[0, 4, 5, 0], [0, 0]]"
proof -
  have h: "[''[PAD]'', ''[UNK]''] \<noteq> []"
    by simp
  have n: "''[START]'' \<notin> set [''[PAD]'', ''[UNK]''] \<and> ''[END]'' \<notin> set [''[PAD]'', ''[UNK]'']"
    by simp
  show ?thesis
    using n sentinel_ids_by_equality_scan [OF h, of "[[4, 5], []]"]
    by auto
qed

section \<open>The concrete scenario\<close>

lemma scenario_library_load:
  "VocabularyStore_load (write_vocab_file scenario_vocab) = Inr scenario_vocab"
  by code_simp

lemma scenario_load_vocab: "load_vocab (write_vocab_file scenario_vocab) = Inr scenario_vocab"
  by code_simp

lemma scenario_tokenizer_built:
  "CustomTokenizer_init RESERVED_TOKENS (write_vocab_file scenario_vocab) = Inr scenario_tokenizer"
  by (simp add: CustomTokenizer_init_def BertTokenizer_init_def scenario_library_load
      scenario_load_vocab scenario_tokenizer_def)

lemma scenario_vocab_loaded: "self_vocab scenario_tokenizer = scenario_vocab"
  by (simp add: scenario_tokenizer_def)

lemma scenario_tokenize_folded:
  "add_start_end (self_reserved_tokens scenario_tokenizer)
     (merge_dims (bt_tokenize (self_tokenizer scenario_tokenizer) [''hello world!'']))
     = Some [[2, 4, 5, 6, 7, 8, 3]]"
  by code_simp

lemma scenario_lookup:
  "lookup scenario_tokenizer [[2, 4, 5, 6, 7, 8, 3]]
     = Some [[''[START]'', ''he'', ''##llo'', ''wor'', ''##ld'', ''!'', ''[END]'']]"
  by code_simp

lemma scenario_detokenize:
  "detokenize scenario_tokenizer [[2, 4, 5, 6, 7, 8, 3]] = Some [''hello world !'']"
  by code_simp

text \<open>
  C1. The tokenizer built from the file of the nine-piece vocabulary (ids 0 to 8) and the
  reserved tokens of the configuration, under any case folding that leaves the normalized
  text \<^verbatim>\<open>hello world!\<close> as it is: the text tokenizes to the ids 2, 4, 5, 6, 7, 8, 3, which
  are the start sentinel, he, ##llo, wor, ##ld, ! and the end sentinel, and these ids
  detokenize to \<^verbatim>\<open>hello world !\<close>.
\<close>

theorem concrete_scenario:
  assumes "case_fold ''hello world!'' = ''hello world!''"
  shows "CustomTokenizer_init RESERVED_TOKENS (write_vocab_file scenario_vocab)
           = Inr scenario_tokenizer \<and>
         self_vocab scenario_tokenizer = scenario_vocab \<and>
         tokenize case_fold scenario_tokenizer [''hello world!''] = Some [[2, 4, 5, 6, 7, 8, 3]] \<and>
         lookup scenario_tokenizer [[2, 4, 5, 6, 7, 8, 3]]
           = Some [[''[START]'', ''he'', ''##llo'', ''wor'', ''##ld'', ''!'', ''[END]'']] \<and>
         detokenize scenario_tokenizer [[2, 4, 5, 6, 7, 8, 3]] = Some [''hello world !'']"
proof -
  have "tokenize case_fold scenario_tokenizer [''hello world!'']
          = add_start_end (self_reserved_tokens scenario_tokenizer)
              (merge_dims (bt_tokenize (self_tokenizer scenario_tokenizer) [''hello world!'']))"
    using assms by (simp add: tokenize_def core_tokens_def)
  then have "tokenize case_fold scenario_tokenizer [''hello world!''] = Some [[2, 4, 5, 6, 7, 8, 3]]"
    by (simp only: scenario_tokenize_folded)
  then show ?thesis
    using scenario_tokenizer_built scenario_vocab_loaded scenario_lookup scenario_detokenize
    by simp
qed

theorem concrete_scenario_witness:
  "case_fold_ascii ''hello world!'' = ''hello world!'' \<and>
   tokenize case_fold_ascii scenario_tokenizer [''hello world!''] = Some [[2, 4, 5, 6, 7, 8, 3]] \<and>
   detokenize scenario_tokenizer [[2, 4, 5, 6, 7, 8, 3]] = Some [''hello world !'']"
proof -
  have h: "case_fold_ascii ''hello world!'' = ''hello world!''"
    by code_simp
  show ?thesis
    using h concrete_scenario [of case_fold_ascii] by simp
qed

section \<open>Cleanup\<close>





text \<open>
  C3. The claim says that no reserved token other than \<^verbatim>\<open>[UNK]\<close> appears in the output of
  \<open>detokenize\<close>, for every id sequence. At the ids 0 and 5 of the scenario, which \<open>lookup\<close>
  shows to be \<^verbatim>\<open>[PAD]\<close> and \<^verbatim>\<open>##llo\<close>, the code returns \<^verbatim>\<open>[PAD]llo\<close>: the pieces are merged
  into one word before \<^verbatim>\<open>cleanup_text\<close> runs, the word is no reserved token in full, and so
  the output begins with the reserved token \<^verbatim>\<open>[PAD]\<close>.
\<close>

theorem detokenize_keeps_merged_reserved_token:
  "lookup scenario_tokenizer [[0, 5]] = Some [[''[PAD]'', ''##llo'']] \<and>
   detokenize scenario_tokenizer [[0, 5]] = Some [''[PAD]llo''] \<and>
   ''[PAD]'' \<in> set (self_reserved_tokens scenario_tokenizer) \<and>
   ''[PAD]'' \<noteq> ''[UNK]'' \<and>
   prefix ''[PAD]'' ''[PAD]llo''"
  by code_simp

section \<open>Rows of reserved tokens only\<close>

text \<open>
  The notebook's \<open>detokenize\<close> adds no failure of its own: it has no result exactly when
  the library's detokenization has none.
\<close>

lemma detokenize_fails_with_library:
  "detokenize self tokenized = None \<longleftrightarrow> bt_detokenize (self_tokenizer self) tokenized = None"
  by (simp add: detokenize_def split: option.splits)



section \<open>Unknown fallback\<close>

declare decompose.simps [simp del]

lemma longest_match_Some:
  "longest_match vocab at_start rest k = Some (i, n) \<Longrightarrow>
     0 < n \<and> n \<le> k \<and> marked at_start (take n rest) \<in> set vocab \<and>
     i = piece_id vocab (marked at_start (take n rest))"
  by (induction k) (auto simp: Let_def split: if_splits)

lemma decompose_step:
  assumes "longest_match vocab at_start rest (length rest) = Some (i, n)"
  shows "decompose vocab at_start rest emitted = decompose vocab False (drop n rest) (emitted @ [i])"
proof -
  from longest_match_Some [OF assms] have "rest \<noteq> []"
    by auto
  with assms show ?thesis
    by (subst decompose.simps) simp
qed

lemma decompose_no_match:
  assumes "rest \<noteq> []" and "longest_match vocab at_start rest (length rest) = None"
  shows "decompose vocab at_start rest emitted = None"
  using assms by (subst decompose.simps) simp

lemma decompose_fails_later:
  assumes "greedy_steps vocab k (at_start, rest) = Some s"
    and "snd s \<noteq> []"
    and "longest_match vocab (fst s) (snd s) (length (snd s)) = None"
  shows "decompose vocab at_start rest emitted = None"
  using assms
proof (induction k arbitrary: at_start rest emitted)
  case 0
  then show ?case
    by (auto intro: decompose_no_match)
next
  case (Suc k)
  from Suc.prems(1) obtain i n where
    found: "longest_match vocab at_start rest (length rest) = Some (i, n)" and
    later: "greedy_steps vocab k (False, drop n rest) = Some s"
    by (auto simp: greedy_step_def split: option.splits)
  have "decompose vocab False (drop n rest) (emitted @ [i]) = None"
    by (rule Suc.IH [OF later Suc.prems(2) Suc.prems(3)])
  with decompose_step [OF found] show ?case
    by simp
qed

lemma fails_at_unknown:
  assumes "fails_at vocab w k"
  shows "wordpiece vocab w = [unknown_id vocab]"
proof -
  from assms obtain s where
    "greedy_steps vocab k (True, w) = Some s" and "snd s \<noteq> []" and
    "longest_match vocab (fst s) (snd s) (length (snd s)) = None"
    by (auto simp: fails_at_def split: option.splits)
  then have "decompose vocab True w [] = None"
    by (rule decompose_fails_later)
  then show ?thesis
    by (simp add: wordpiece_def)
qed

text \<open>
  A word with a character that no piece of the vocabulary contains fails at some position:
  the walk cannot get past that character.
\<close>

lemma absent_character_stuck:
  assumes "c \<in> set rest" and "\<forall>p \<in> set vocab. c \<notin> set p"
  shows "\<exists>k s. greedy_steps vocab k (at_start, rest) = Some s \<and> snd s \<noteq> [] \<and>
               longest_match vocab (fst s) (snd s) (length (snd s)) = None"
  using assms(1)
proof (induction "length rest" arbitrary: rest at_start rule: less_induct)
  case less
  from less.prems have nonempty: "rest \<noteq> []"
    by auto
  show ?case
  proof (cases "longest_match vocab at_start rest (length rest)")
    case None
    with nonempty have "greedy_steps vocab 0 (at_start, rest) = Some (at_start, rest) \<and>
        snd (at_start, rest) \<noteq> [] \<and>
        longest_match vocab (fst (at_start, rest)) (snd (at_start, rest))
          (length (snd (at_start, rest))) = None"
      by simp
    then show ?thesis
      by blast
  next
    case (Some found)
    obtain i n where found: "found = (i, n)"
      by (cases found)
    from longest_match_Some [OF Some [unfolded found]]
    have n: "0 < n" and piece: "marked at_start (take n rest) \<in> set vocab"
      by simp_all
    from piece assms(2) have "c \<notin> set (marked at_start (take n rest))"
      by blast
    then have "c \<notin> set (take n rest)"
      by (auto simp: marked_def split: if_splits)
    with less.prems have inside: "c \<in> set (drop n rest)"
      by (metis Un_iff append_take_drop_id set_append)
    from n nonempty have shorter: "length (drop n rest) < length rest"
      by simp
    from less.hyps [OF shorter inside, of False] obtain k s where
      later: "greedy_steps vocab k (False, drop n rest) = Some s" and
      stuck: "snd s \<noteq> []" "longest_match vocab (fst s) (snd s) (length (snd s)) = None"
      by blast
    from Some found later have "greedy_steps vocab (Suc k) (at_start, rest) = Some s"
      by (simp add: greedy_step_def)
    with stuck show ?thesis
      by blast
  qed
qed

lemma absent_character_fails:
  assumes "c \<in> set w" and "\<forall>p \<in> set vocab. c \<notin> set p"
  shows "\<exists>k. fails_at vocab w k"
proof -
  from absent_character_stuck [OF assms, of True] obtain k s where
    "greedy_steps vocab k (True, w) = Some s" and "snd s \<noteq> []" and
    "longest_match vocab (fst s) (snd s) (length (snd s)) = None"
    by blast
  then have "fails_at vocab w k"
    by (simp add: fails_at_def)
  then show ?thesis ..
qed

lemma tokenize_single_text:
  assumes "self_tokenizer self = BertTokenizer_over vocab"
    and "START (self_reserved_tokens self) = Some s"
    and "END (self_reserved_tokens self) = Some e"
  shows "tokenize case_fold self [sentence]
           = Some [s # concat (map (wordpiece vocab) (split_words (case_fold sentence))) @ [e]]"
  using add_start_end_rows [OF assms(2) assms(3)] assms(1)
  by (simp add: tokenize_def core_tokens_def BertTokenizer_over_def BertTokenizer_tokenize_def
      merge_dims_def)

text \<open>
  C4. The library tokenizer is the one over a vocabulary, and the list of reserved tokens
  is not empty. When the greedy decomposition of a word fails at some position, that is,
  after some number of matches text remains and no piece matches a prefix of it, the word
  maps to the single unknown id and the ids matched before are not emitted. A text with
  such a word is still tokenized, and its row is exactly: the start id, the ids of the words
  before, the one unknown id, the ids of the words after, the end id. By
  \<open>absent_character_fails\<close> this covers every word with a character that no piece contains.
\<close>

theorem unknown_fallback:
  assumes "self_tokenizer self = BertTokenizer_over vocab"
    and "self_reserved_tokens self \<noteq> []"
    and "fails_at vocab w k"
    and "split_words (case_fold sentence) = before @ w # after"
  shows "wordpiece vocab w = [unknown_id vocab] \<and>
         (\<exists>s e. START (self_reserved_tokens self) = Some s \<and>
                END (self_reserved_tokens self) = Some e \<and>
                tokenize case_fold self [sentence]
                  = Some [s # concat (map (wordpiece vocab) before) @
                            unknown_id vocab # concat (map (wordpiece vocab) after) @ [e]])"
proof -
  have unk: "wordpiece vocab w = [unknown_id vocab]"
    using assms(3) by (rule fails_at_unknown)
  from assms(2) obtain s where s: "START (self_reserved_tokens self) = Some s"
    using START_nonempty by blast
  from assms(2) obtain e where e: "END (self_reserved_tokens self) = Some e"
    using END_nonempty by blast
  have "tokenize case_fold self [sentence]
          = Some [s # concat (map (wordpiece vocab) (before @ w # after)) @ [e]]"
    using tokenize_single_text [OF assms(1) s e, of case_fold sentence] assms(4) by simp
  then have "tokenize case_fold self [sentence]
               = Some [s # concat (map (wordpiece vocab) before) @
                         unknown_id vocab # concat (map (wordpiece vocab) after) @ [e]]"
    by (simp add: unk)
  with unk s e show ?thesis
    by blast
qed

theorem unknown_fallback_witness:
  "self_tokenizer scenario_tokenizer = BertTokenizer_over scenario_vocab \<and>
   self_reserved_tokens scenario_tokenizer \<noteq> [] \<and>
   fails_at scenario_vocab ''help'' 1 \<and>
   split_words (case_fold_ascii ''Say: Help world!'') = [''say'', '':''] @ ''help'' # [''world'', ''!''] \<and>
   wordpiece scenario_vocab ''say'' = [1] \<and>
   wordpiece scenario_vocab ''help'' = [1] \<and>
   tokenize case_fold_ascii scenario_tokenizer [''Say: Help world!''] = Some [[2, 1, 1, 1, 6, 7, 8, 3]]"
proof -
  have t: "self_tokenizer scenario_tokenizer = BertTokenizer_over scenario_vocab"
    by (simp add: scenario_tokenizer_def)
  have r: "self_reserved_tokens scenario_tokenizer \<noteq> []"
    by (simp add: scenario_tokenizer_def RESERVED_TOKENS_def)
  have f: "fails_at scenario_vocab ''help'' 1"
    by code_simp
  have w: "split_words (case_fold_ascii ''Say: Help world!'')
             = [''say'', '':''] @ ''help'' # [''world'', ''!'']"
    by code_simp
  have u: "unknown_id scenario_vocab = 1"
    by code_simp
  have others: "wordpiece scenario_vocab ''say'' = [1] \<and> wordpiece scenario_vocab '':'' = [1] \<and>
      wordpiece scenario_vocab ''world'' = [6, 7] \<and> wordpiece scenario_vocab ''!'' = [8]"
    by code_simp
  have sentinels: "START (self_reserved_tokens scenario_tokenizer) = Some 2 \<and>
      END (self_reserved_tokens scenario_tokenizer) = Some 3"
    by code_simp
  show ?thesis
    using t r f w
      unknown_fallback [where self = scenario_tokenizer and vocab = scenario_vocab
        and w = "''help''" and k = 1 and case_fold = case_fold_ascii
        and sentence = "''Say: Help world!''" and before = "[''say'', '':'']"
        and after = "[''world'', ''!'']"]
    by (simp add: u others sentinels)
qed

end
